theory Spec2Isabelle
  imports Complex_Main "HOL-Library.Sublist"
begin

section \<open>The trigger notebook Session5_DesignYourOwnTrigger\<close>

text \<open>
  The notebook reads two event trees, runs \<^verbatim>\<open>analyse_events\<close> over each, and
  prints a significance and a rate reduction. This theory embeds the code cells that
  compute: the constants, \<^verbatim>\<open>get_histograms\<close>, \<^verbatim>\<open>analyse_events\<close> and the
  final results cell.

  Conventions of the embedding.
  \<^item> Python floats and ROOT doubles are carried by real numbers, and \<^verbatim>\<open>math.sqrt\<close>,
    \<^verbatim>\<open>math.cos\<close>, \<^verbatim>\<open>math.sin\<close>, \<^verbatim>\<open>+\<close>, \<^verbatim>\<open>*\<close> and \<^verbatim>\<open>/\<close> are written as the
    real operations. The code rounds after each of them, so the model does not tell
    which number the code computes from given inputs. No property below says so: the
    properties are about the control flow, the exceptions and the histogram updates,
    and they are stated over whichever value the computation of the missing energy
    returned. NaN and infinities are outside the model.
  \<^item> Python integers are \<open>int\<close>; the unsigned counters of the tree (\<^verbatim>\<open>lep_n\<close>,
    \<^verbatim>\<open>jet_n\<close>) are \<open>nat\<close>.
  \<^item> An exception is a value: every function that can raise returns \<open>error + 'a\<close>,
    with \<open>Inl\<close> the exception. A pass that raises returns the exception only.
  \<^item> The dictionary \<^verbatim>\<open>hist_list\<close> is a map from names to histograms. The histogram
    objects are mutated in place by the code; the model stores the updated object
    back under its name (the dictionaries of the notebook hold one object per name).
\<close>

subsection \<open>Exceptions\<close>

datatype error = KeyError string | IndexError | ValueError | ZeroDivisionError

fun bind_err :: "error + 'a \<Rightarrow> ('a \<Rightarrow> error + 'b) \<Rightarrow> error + 'b" where
  "bind_err (Inl e) f = Inl e"
| "bind_err (Inr x) f = f x"

subsection \<open>Common variables\<close>

text \<open>\<^verbatim>\<open>GeV = 1e-3 # convert MeV to GeV\<close>\<close>

definition GeV :: real where
  "GeV = 1 / 1000"

subsection \<open>The ROOT classes the notebook uses\<close>

text \<open>
  Modelled from the spec: the classes \<^verbatim>\<open>TH1F\<close> and \<^verbatim>\<open>TLorentzVector\<close> belong to
  ROOT, an external library whose code is not among the files of the repository. The
  specification describes a histogram as a frequency distribution over a fixed binning,
  with named buckets for the cutflow, that a pass clears before it fills. The model
  gives that description the shape of the ROOT operations the notebook calls, by what
  they do to the state the notebook can observe.

  A one-dimensional histogram \<^verbatim>\<open>TH1F\<close> has a fixed axis (\<open>nbins\<close> bins of equal
  width on \<open>[xmin, xmax)\<close>), bin 0 for underflow and bin \<open>nbins + 1\<close> for overflow,
  a content per bin, the number of entries, and the list of labels given to bins by
  alphanumeric fills: the i-th label of the list names bin i (counting from 1).
  Bin contents are counts (every fill of the notebook has weight 1). The axis
  extension ROOT performs when labels outnumber the bins is not modelled (the
  notebook uses two labels on a ten-bin axis); the statistics sums, the name and the
  title are left out.
\<close>

record TH1F =
  nbins :: nat
  xmin :: real
  xmax :: real
  labels :: "string list"
  contents :: "nat \<Rightarrow> nat"
  entries :: nat

text \<open>\<^verbatim>\<open>ROOT.TH1F(name, title, nbinsx, xlow, xup)\<close>: an empty histogram.\<close>

definition TH1F_new :: "nat \<Rightarrow> real \<Rightarrow> real \<Rightarrow> TH1F" where
  "TH1F_new n lo hi =
     \<lparr>nbins = n, xmin = lo, xmax = hi, labels = [], contents = (\<lambda>b. 0), entries = 0\<rparr>"

text \<open>\<^verbatim>\<open>TH1::Reset()\<close>: contents and entries are cleared; the axis and its labels stay.\<close>

definition Reset :: "TH1F \<Rightarrow> TH1F" where
  "Reset h = h\<lparr>contents := (\<lambda>b. 0), entries := 0\<rparr>"

text \<open>\<^verbatim>\<open>TAxis::FindBin(x)\<close> on an axis of equal bins.\<close>

definition FindBin :: "TH1F \<Rightarrow> real \<Rightarrow> nat" where
  "FindBin h x =
     (if x < xmin h then 0
      else if \<not> x < xmax h then nbins h + 1
      else 1 + nat \<lfloor>real (nbins h) * (x - xmin h) / (xmax h - xmin h)\<rfloor>)"

text \<open>\<^verbatim>\<open>TH1::Fill(x)\<close>: one more entry, in the bin of \<open>x\<close>.\<close>

definition Fill :: "TH1F \<Rightarrow> real \<Rightarrow> TH1F" where
  "Fill h x =
     (let bin = FindBin h x
      in h\<lparr>contents := (contents h)(bin := contents h bin + 1), entries := entries h + 1\<rparr>)"

text \<open>The bin a label names, if the axis has the label.\<close>

fun FindObject :: "string list \<Rightarrow> string \<Rightarrow> nat option" where
  "FindObject [] l = None"
| "FindObject (x # xs) l = (if x = l then Some 1 else map_option Suc (FindObject xs l))"

text \<open>
  \<^verbatim>\<open>TAxis::FindBin(label)\<close>: the bin of the label; a label the axis does not have
  yet is added to it and names the next bin.
\<close>

definition FindBin_label :: "TH1F \<Rightarrow> string \<Rightarrow> nat \<times> TH1F" where
  "FindBin_label h l =
     (case FindObject (labels h) l of
        Some bin \<Rightarrow> (bin, h)
      | None \<Rightarrow> (length (labels h) + 1, h\<lparr>labels := labels h @ [l]\<rparr>))"

text \<open>\<^verbatim>\<open>TH1::Fill(label, w)\<close>: one more entry, of weight \<open>w\<close>, in the bin of the label.\<close>

definition Fill_label :: "TH1F \<Rightarrow> string \<Rightarrow> nat \<Rightarrow> TH1F" where
  "Fill_label h l w =
     (case FindBin_label h l of
        (bin, h') \<Rightarrow>
          h'\<lparr>contents := (contents h')(bin := contents h' bin + w), entries := entries h' + 1\<rparr>)"

text \<open>
  \<^verbatim>\<open>TLorentzVector\<close>: a four-vector \<open>(x, y, z, t)\<close>. \<^verbatim>\<open>SetPtEtaPhiE\<close> sets it from
  transverse momentum, pseudorapidity, azimuth and energy; \<^verbatim>\<open>Pt\<close> is the transverse
  length and \<^verbatim>\<open>Eta\<close> the pseudorapidity of the spatial part.
\<close>

record TLorentzVector =
  fX :: real
  fY :: real
  fZ :: real
  fE :: real

definition SetPtEtaPhiE :: "real \<Rightarrow> real \<Rightarrow> real \<Rightarrow> real \<Rightarrow> TLorentzVector" where
  "SetPtEtaPhiE pt eta phi e =
     \<lparr>fX = \<bar>pt\<bar> * cos phi, fY = \<bar>pt\<bar> * sin phi, fZ = \<bar>pt\<bar> * sinh eta, fE = e\<rparr>"

definition Pt :: "TLorentzVector \<Rightarrow> real" where
  "Pt v = sqrt (fX v * fX v + fY v * fY v)"

definition CosTheta :: "TLorentzVector \<Rightarrow> real" where
  "CosTheta v =
     (let ptot = sqrt (fX v * fX v + fY v * fY v + fZ v * fZ v)
      in if ptot = 0 then 1 else fZ v / ptot)"

definition Eta :: "TLorentzVector \<Rightarrow> real" where
  "Eta v =
     (let cosTheta = CosTheta v
      in if cosTheta * cosTheta < 1 then - (1 / 2) * ln ((1 - cosTheta) / (1 + cosTheta))
         else if fZ v = 0 then 0
         else if fZ v > 0 then 10 * 10 ^ 10
         else - (10 * 10 ^ 10))"

subsection \<open>The list of histograms\<close>

text \<open>
  \<^verbatim>\<open>
  bin_width = 5 # GeV
  h_pt_min = 0
  h_pt_max = 450
  pt_bins = int((h_pt_max-h_pt_min)/bin_width)
  \<close>
\<close>

definition bin_width :: int where
  "bin_width = 5"

definition h_pt_min :: int where
  "h_pt_min = 0"

definition h_pt_max :: int where
  "h_pt_max = 450"

text \<open>Python's \<^verbatim>\<open>int\<close> of a float truncates towards zero.\<close>

definition py_int :: "real \<Rightarrow> int" where
  "py_int x = (if 0 \<le> x then \<lfloor>x\<rfloor> else \<lceil>x\<rceil>)"

definition pt_bins :: int where
  "pt_bins = py_int (real_of_int (h_pt_max - h_pt_min) / real_of_int bin_width)"

type_synonym hists = "string \<rightharpoonup> TH1F"

text \<open>
  \<^verbatim>\<open>get_histograms\<close> builds the dictionary of ten empty histograms, in the order of
  the source. The call \<^verbatim>\<open>hist.SetDirectory(0)\<close> on each of them detaches it from the
  current ROOT file and changes nothing the model holds.
\<close>

definition get_histograms :: hists where
  "get_histograms =
     [''met_et'' \<mapsto> TH1F_new (nat pt_bins) (real_of_int h_pt_min) (real_of_int h_pt_max),
      ''jet_n'' \<mapsto> TH1F_new 10 0 10,
      ''jet0_pt'' \<mapsto> TH1F_new (nat pt_bins) (real_of_int h_pt_min) (real_of_int h_pt_max),
      ''jet1_pt'' \<mapsto> TH1F_new (nat pt_bins) (real_of_int h_pt_min) (real_of_int h_pt_max),
      ''jet0_eta'' \<mapsto> TH1F_new 100 (- 5) 5,
      ''jet1_eta'' \<mapsto> TH1F_new 100 (- 5) 5,
      ''jet_dphi'' \<mapsto> TH1F_new 80 (- 4) 4,
      ''jet_deta'' \<mapsto> TH1F_new 80 0 8,
      ''dijet_m'' \<mapsto> TH1F_new (nat (pt_bins * 2)) (real_of_int h_pt_min)
         (real_of_int (h_pt_max * 2)),
      ''cutflow'' \<mapsto> TH1F_new 10 0 10]"

subsection \<open>Events\<close>

text \<open>
  The branches of the tree \<^verbatim>\<open>mini\<close> that \<^verbatim>\<open>analyse_events\<close> reads. Energies and
  momenta are in MeV.
\<close>

record event =
  lep_n :: nat
  lep_pt :: "real list"
  lep_phi :: "real list"
  met_et :: real
  met_phi :: real
  jet_n :: nat
  jet_pt :: "real list"
  jet_eta :: "real list"
  jet_phi :: "real list"
  jet_E :: "real list"

text \<open>
  Reading a branch array at an index it does not have raises \<^verbatim>\<open>IndexError\<close> (the
  arrays are \<^verbatim>\<open>std::vector\<close>s, whose Python indexing checks the bounds). The code
  only uses indices from 0 upwards.
\<close>

definition getitem :: "real list \<Rightarrow> nat \<Rightarrow> error + real" where
  "getitem xs i = (if i < length xs then Inr (xs ! i) else Inl IndexError)"

text \<open>\<^verbatim>\<open>hist_list[name]\<close> raises \<^verbatim>\<open>KeyError\<close> for a name the dictionary lacks.\<close>

definition getitem_hist :: "hists \<Rightarrow> string \<Rightarrow> error + TH1F" where
  "getitem_hist hist_list name =
     (case hist_list name of None \<Rightarrow> Inl (KeyError name) | Some h \<Rightarrow> Inr h)"

text \<open>\<^verbatim>\<open>hist_list[name].method(...)\<close>: look the histogram up, let the method change it.\<close>

definition call_hist :: "hists \<Rightarrow> string \<Rightarrow> (TH1F \<Rightarrow> TH1F) \<Rightarrow> error + hists" where
  "call_hist hist_list name method =
     bind_err (getitem_hist hist_list name) (\<lambda>h. Inr (hist_list(name \<mapsto> method h)))"

subsection \<open>The trigger selection code: analyse_events\<close>

text \<open>
  \<^verbatim>\<open>
  met_x = 0
  met_y = 0
  for ii in range(event.lep_n):
      met_x += event.lep_pt[ii]*math.cos(event.lep_phi[ii])
      met_y += event.lep_pt[ii]*math.sin(event.lep_phi[ii])
  \<close>
  The loop over the leptons, on the indices still to visit.
\<close>

fun lep_loop :: "event \<Rightarrow> nat list \<Rightarrow> real \<times> real \<Rightarrow> error + real \<times> real" where
  "lep_loop ev [] (met_x, met_y) = Inr (met_x, met_y)"
| "lep_loop ev (ii # rest) (met_x, met_y) =
     bind_err (getitem (lep_pt ev) ii) (\<lambda>pt.
     bind_err (getitem (lep_phi ev) ii) (\<lambda>phi.
       lep_loop ev rest (met_x + pt * cos phi, met_y + pt * sin phi)))"

text \<open>
  \<^verbatim>\<open>
  met_x += event.met_et*math.cos(event.met_phi)
  met_y += event.met_et*math.sin(event.met_phi)
  met_et_GeV = math.sqrt(met_x*met_x + met_y*met_y) * GeV
  \<close>
\<close>

definition met_et_GeV :: "event \<Rightarrow> error + real" where
  "met_et_GeV ev =
     bind_err (lep_loop ev [0..<lep_n ev] (0, 0)) (\<lambda>(mx, my).
       let met_x = mx + met_et ev * cos (met_phi ev);
           met_y = my + met_et ev * sin (met_phi ev)
       in Inr (sqrt (met_x * met_x + met_y * met_y) * GeV))"

text \<open>\<^verbatim>\<open>met_thresh = 200\<close>, a local constant of \<^verbatim>\<open>analyse_events\<close>.\<close>

definition met_thresh :: int where
  "met_thresh = 200"

text \<open>The label \<^verbatim>\<open>f"{met_thresh}GeVMET"\<close>, with \<^verbatim>\<open>met_thresh = 200\<close>.\<close>

definition met_thresh_label :: string where
  "met_thresh_label = ''200GeVMET''"

text \<open>
  \<^verbatim>\<open>
  jetK = ROOT.TLorentzVector()
  jetK.SetPtEtaPhiE(event.jet_pt[K], event.jet_eta[K], event.jet_phi[K], event.jet_E[K])
  \<close>
\<close>

definition jet_vector :: "event \<Rightarrow> nat \<Rightarrow> error + TLorentzVector" where
  "jet_vector ev k =
     bind_err (getitem (jet_pt ev) k) (\<lambda>pt.
     bind_err (getitem (jet_eta ev) k) (\<lambda>eta.
     bind_err (getitem (jet_phi ev) k) (\<lambda>phi.
     bind_err (getitem (jet_E ev) k) (\<lambda>e.
       Inr (SetPtEtaPhiE pt eta phi e)))))"

text \<open>
  The body of the event loop after the counter check, for one event. The result is
  the dictionary after the event and whether the event reached
  \<^verbatim>\<open>passed_cnt += 1\<close> (\<open>False\<close>: it left through \<^verbatim>\<open>continue\<close>).
\<close>

definition process_event :: "event \<Rightarrow> hists \<Rightarrow> error + bool \<times> hists" where
  "process_event ev hist_list =
     bind_err (met_et_GeV ev) (\<lambda>met.
     bind_err (call_hist hist_list ''cutflow'' (\<lambda>h. Fill_label h ''total'' 1)) (\<lambda>hl1.
     bind_err (call_hist hl1 ''met_et'' (\<lambda>h. Fill h met)) (\<lambda>hl2.
       if met < real_of_int met_thresh then Inr (False, hl2)
       else
     bind_err (call_hist hl2 ''cutflow'' (\<lambda>h. Fill_label h met_thresh_label 1)) (\<lambda>hl3.
     bind_err (call_hist hl3 ''jet_n'' (\<lambda>h. Fill h (real (jet_n ev)))) (\<lambda>hl4.
       if jet_n ev \<ge> 2 then
         bind_err (jet_vector ev 0) (\<lambda>jet0.
         bind_err (jet_vector ev 1) (\<lambda>jet1.
           let jet0_pt_GeV = Pt jet0 * GeV;
               jet1_pt_GeV = Pt jet1 * GeV;
               jet0_eta = Eta jet0;
               jet1_eta = Eta jet1
           in
         bind_err (call_hist hl4 ''jet0_pt'' (\<lambda>h. Fill h jet0_pt_GeV)) (\<lambda>hl5.
         bind_err (call_hist hl5 ''jet1_pt'' (\<lambda>h. Fill h jet1_pt_GeV)) (\<lambda>hl6.
         bind_err (call_hist hl6 ''jet0_eta'' (\<lambda>h. Fill h jet0_eta)) (\<lambda>hl7.
         bind_err (call_hist hl7 ''jet1_eta'' (\<lambda>h. Fill h jet1_eta)) (\<lambda>hl8.
           Inr (True, hl8)))))))
       else Inr (True, hl4))))))"

text \<open>
  \<^verbatim>\<open>
  for event in tree:
      if evt_cnt >= max_events: break
      evt_cnt += 1
      ...
      passed_cnt += 1
  return passed_cnt
  \<close>
  The loop on the events still to come, with the two counters and the dictionary.
\<close>

fun event_loop :: "event list \<Rightarrow> int \<Rightarrow> int \<Rightarrow> int \<Rightarrow> hists \<Rightarrow> error + int \<times> hists" where
  "event_loop [] max_events evt_cnt passed_cnt hist_list = Inr (passed_cnt, hist_list)"
| "event_loop (ev # tree) max_events evt_cnt passed_cnt hist_list =
     (if evt_cnt \<ge> max_events then Inr (passed_cnt, hist_list)
      else
        bind_err (process_event ev hist_list) (\<lambda>(passed, hl).
          event_loop tree max_events (evt_cnt + 1)
            (if passed then passed_cnt + 1 else passed_cnt) hl))"

text \<open>
  \<^verbatim>\<open>
  for hname, hist in hist_list.items():
      hist.Reset()
  \<close>
\<close>

definition reset_all :: "hists \<Rightarrow> hists" where
  "reset_all hist_list = (\<lambda>hname. map_option Reset (hist_list hname))"

text \<open>
  \<^verbatim>\<open>def analyse_events(tree, hist_list, max_events = -1)\<close>: the passed count and
  the dictionary as the call leaves it.
\<close>

definition analyse_events :: "event list \<Rightarrow> hists \<Rightarrow> int \<Rightarrow> error + int \<times> hists" where
  "analyse_events tree hist_list max_events =
     event_loop tree max_events 0 0 (reset_all hist_list)"

text \<open>The call without the third argument takes the default \<^verbatim>\<open>max_events = -1\<close>.\<close>

definition analyse_events_default :: "event list \<Rightarrow> hists \<Rightarrow> error + int \<times> hists" where
  "analyse_events_default tree hist_list = analyse_events tree hist_list (- 1)"

subsection \<open>The final results cell\<close>

text \<open>\<^verbatim>\<open>math.sqrt\<close> raises \<^verbatim>\<open>ValueError\<close> on a negative argument.\<close>

definition math_sqrt :: "real \<Rightarrow> error + real" where
  "math_sqrt x = (if x < 0 then Inl ValueError else Inr (sqrt x))"

text \<open>Float division raises \<^verbatim>\<open>ZeroDivisionError\<close> on a zero divisor.\<close>

definition truediv :: "real \<Rightarrow> real \<Rightarrow> error + real" where
  "truediv a b = (if b = 0 then Inl ZeroDivisionError else Inr (a / b))"

text \<open>\<^verbatim>\<open>lumi_factor = 30.\<close>\<close>

definition lumi_factor :: real where
  "lumi_factor = 30"

text \<open>\<^verbatim>\<open>signal*lumi_factor/math.sqrt(background*lumi_factor)\<close>\<close>

definition significance :: "real \<Rightarrow> real \<Rightarrow> error + real" where
  "significance signal background =
     bind_err (math_sqrt (background * lumi_factor)) (\<lambda>root.
       truediv (signal * lumi_factor) root)"

text \<open>\<^verbatim>\<open>reduction = background/51336\<close>\<close>

definition reduction :: "real \<Rightarrow> real" where
  "reduction background = background / 51336"

text \<open>
  \<^verbatim>\<open>
  if reduction > 0.14:
      print(" -- Sorry, we can't afford this trigger.")
  else:
      print(" -- We can afford this trigger if it is worth the physics (good significance)!")
  \<close>
  The verdict is the branch taken: \<open>True\<close> for the second message.
\<close>

definition affordable :: "real \<Rightarrow> bool" where
  "affordable background = (if reduction background > 14 / 100 then False else True)"

section \<open>Notions used to state and prove the properties\<close>

text \<open>
  A well-formed event: every branch array has an entry for each of the leptons and
  jets the counters announce.
\<close>

definition wf_event :: "event \<Rightarrow> bool" where
  "wf_event ev \<longleftrightarrow>
     lep_n ev \<le> length (lep_pt ev) \<and> lep_n ev \<le> length (lep_phi ev) \<and>
     jet_n ev \<le> length (jet_pt ev) \<and> jet_n ev \<le> length (jet_eta ev) \<and>
     jet_n ev \<le> length (jet_phi ev) \<and> jet_n ev \<le> length (jet_E ev)"

text \<open>The dictionary has every histogram \<^verbatim>\<open>analyse_events\<close> fills.\<close>

definition has_histograms :: "hists \<Rightarrow> bool" where
  "has_histograms hl \<longleftrightarrow>
     list_all (\<lambda>name. hl name \<noteq> None)
       [''cutflow'', ''met_et'', ''jet_n'', ''jet0_pt'', ''jet1_pt'', ''jet0_eta'', ''jet1_eta'']"

text \<open>What one event does to the cutflow histogram, by whether it passed.\<close>

definition cutflow_step :: "bool \<Rightarrow> TH1F \<Rightarrow> TH1F" where
  "cutflow_step passed h =
     (if passed then Fill_label (Fill_label h ''total'' 1) met_thresh_label 1
      else Fill_label h ''total'' 1)"

text \<open>The dictionary with the labels of the cutflow axis replaced.\<close>

definition relabel_cutflow :: "string list \<Rightarrow> hists \<Rightarrow> hists" where
  "relabel_cutflow L hl =
     (case hl ''cutflow'' of None \<Rightarrow> hl | Some h \<Rightarrow> hl(''cutflow'' \<mapsto> h\<lparr>labels := L\<rparr>))"

text \<open>The selection an event has to pass: its effective missing energy reaches the threshold.\<close>

definition passes_met :: "event \<Rightarrow> bool" where
  "passes_met ev =
     (case met_et_GeV ev of Inl e \<Rightarrow> False | Inr met \<Rightarrow> real_of_int met_thresh \<le> met)"

subsection \<open>Example events\<close>

text \<open>
  The examples have no lepton and their missing energy at azimuth 0, with 250000 MeV
  or 100000 MeV. On these the floats of the code give the numbers the model gives:
  the cosine is 1, the sine 0, the square and its root are exact, and the product with
  \<^verbatim>\<open>1e-3\<close> is \<^verbatim>\<open>250.0\<close> and \<^verbatim>\<open>100.0\<close>.
\<close>

text \<open>No lepton, 250 GeV of missing energy at azimuth 0, no jet.\<close>

definition ev_met250 :: event where
  "ev_met250 =
     \<lparr>lep_n = 0, lep_pt = [], lep_phi = [], met_et = 250000, met_phi = 0,
      jet_n = 0, jet_pt = [], jet_eta = [], jet_phi = [], jet_E = []\<rparr>"

text \<open>Two jets, with 100 GeV and with 250 GeV of missing energy.\<close>

definition ev_met100_dijet :: event where
  "ev_met100_dijet =
     \<lparr>lep_n = 0, lep_pt = [], lep_phi = [], met_et = 100000, met_phi = 0,
      jet_n = 2, jet_pt = [60000, 40000], jet_eta = [1, - 1], jet_phi = [0, 3],
      jet_E = [100000, 70000]\<rparr>"

definition ev_met250_dijet :: event where
  "ev_met250_dijet =
     \<lparr>lep_n = 0, lep_pt = [], lep_phi = [], met_et = 250000, met_phi = 0,
      jet_n = 2, jet_pt = [60000, 40000], jet_eta = [1, - 1], jet_phi = [0, 3],
      jet_E = [100000, 70000]\<rparr>"

section \<open>Auxiliary facts\<close>

lemma pt_bins_eq: "pt_bins = 90"
  by (simp add: pt_bins_def py_int_def h_pt_max_def h_pt_min_def bin_width_def)

subsection \<open>The missing-energy computation\<close>

text \<open>
  The loop over the leptons adds up the components of the lepton vectors; for arrays that hold \<^verbatim>\<open>lep_n\<close> entries it does not raise.
\<close>

lemma bind_err_Inr_iff: "bind_err m f = Inr y \<longleftrightarrow> (\<exists>x. m = Inr x \<and> f x = Inr y)"
  by (cases m) auto

lemma call_hist_Inr_iff:
  "call_hist hl k g = Inr hl' \<longleftrightarrow> (\<exists>h. hl k = Some h \<and> hl' = hl(k \<mapsto> g h))"
  by (auto simp: call_hist_def getitem_hist_def bind_err_Inr_iff split: option.splits)

lemma lep_loop_returns:
  "\<forall>i\<in>set idx. i < length (lep_pt ev) \<and> i < length (lep_phi ev) \<Longrightarrow>
   \<exists>r. lep_loop ev idx acc = Inr r"
proof (induction idx arbitrary: acc)
  case Nil
  then show ?case by (cases acc) simp
next
  case (Cons ii rest)
  then show ?case by (cases acc) (simp add: getitem_def)
qed

lemma met_et_GeV_returns:
  assumes "lep_n ev \<le> length (lep_pt ev)" "lep_n ev \<le> length (lep_phi ev)"
  shows "\<exists>met. met_et_GeV ev = Inr met"
proof -
  have "\<forall>i\<in>set [0..<lep_n ev]. i < length (lep_pt ev) \<and> i < length (lep_phi ev)"
    using assms by auto
  from lep_loop_returns[OF this, of "(0, 0)"] obtain r where
    "lep_loop ev [0..<lep_n ev] (0, 0) = Inr r"
    by blast
  then show ?thesis
    by (cases r) (simp add: met_et_GeV_def Let_def)
qed

text \<open>
  With no lepton and the missing energy at azimuth 0 the components are \<open>met_et\<close> and 0,
  and the root of the square is the magnitude.
\<close>

lemma met_et_GeV_azimuth_0:
  assumes "lep_n ev = 0" "met_phi ev = 0"
  shows "met_et_GeV ev = Inr (\<bar>met_et ev\<bar> * GeV)"
  using assms by (simp add: met_et_GeV_def)

subsection \<open>One event\<close>

text \<open>
  What \<^verbatim>\<open>process_event\<close> returns on each of its paths, and which names of the dictionary it leaves alone.
\<close>

lemma process_event_low:
  assumes "met_et_GeV ev = Inr met" "met < real_of_int met_thresh"
  shows "process_event ev hl = Inr r \<longleftrightarrow>
     (\<exists>hc hm. hl ''cutflow'' = Some hc \<and> hl ''met_et'' = Some hm \<and>
        r = (False, hl(''cutflow'' \<mapsto> Fill_label hc ''total'' 1, ''met_et'' \<mapsto> Fill hm met)))"
  using assms
  by (auto simp: process_event_def bind_err_Inr_iff call_hist_Inr_iff)

lemma process_event_high_fewjets:
  assumes "met_et_GeV ev = Inr met" "\<not> met < real_of_int met_thresh" "jet_n ev < 2"
  shows "process_event ev hl = Inr r \<longleftrightarrow>
     (\<exists>hc hm hj. hl ''cutflow'' = Some hc \<and> hl ''met_et'' = Some hm \<and> hl ''jet_n'' = Some hj \<and>
        r = (True, hl(''cutflow'' \<mapsto> Fill_label (Fill_label hc ''total'' 1) met_thresh_label 1,
                      ''met_et'' \<mapsto> Fill hm met,
                      ''jet_n'' \<mapsto> Fill hj (real (jet_n ev)))))"
  using assms
  by (auto simp: process_event_def bind_err_Inr_iff call_hist_Inr_iff fun_upd_twist)

lemma process_event_passed:
  assumes "met_et_GeV ev = Inr met" "process_event ev hl = Inr (passed, hl')"
  shows "passed \<longleftrightarrow> \<not> met < real_of_int met_thresh"
  using assms
  by (auto simp: process_event_def bind_err_Inr_iff Let_def split: if_splits)

lemma process_event_frame:
  assumes "process_event ev hl = Inr (passed, hl')"
    and "k \<notin> {''cutflow'', ''met_et'', ''jet_n'', ''jet0_pt'', ''jet1_pt'', ''jet0_eta'', ''jet1_eta''}"
  shows "hl' k = hl k"
  using assms
  by (auto simp: process_event_def bind_err_Inr_iff call_hist_Inr_iff Let_def split: if_splits)

lemma process_event_frame_low:
  assumes "process_event ev hl = Inr (passed, hl')" "met_et_GeV ev = Inr met" "met < real_of_int met_thresh"
    and "k \<notin> {''cutflow'', ''met_et''}"
  shows "hl' k = hl k"
  using assms
  by (auto simp: process_event_low)

subsection \<open>Labels of an axis\<close>

text \<open>
  A label keeps the bin it was given: labels are only ever appended, so a fill by label finds the same bin on every axis that extends the one it was first made on.
\<close>

lemma FindObject_append:
  "FindObject (xs @ ys) l =
     (case FindObject xs l of Some b \<Rightarrow> Some b
      | None \<Rightarrow> map_option (\<lambda>b. b + length xs) (FindObject ys l))"
  by (induction xs) (auto simp: option.map_comp comp_def option.map_ident split: option.splits)

lemma FindObject_prefix:
  "prefix xs L \<Longrightarrow> FindObject xs l = Some b \<Longrightarrow> FindObject L l = Some b"
  by (auto simp: prefix_def FindObject_append)

lemma FindObject_new:
  "prefix (xs @ [l]) L \<Longrightarrow> FindObject xs l = None \<Longrightarrow> FindObject L l = Some (length xs + 1)"
  by (auto simp: prefix_def FindObject_append)

lemma labels_Fill_label:
  "labels (Fill_label h l w) =
     (case FindObject (labels h) l of Some b \<Rightarrow> labels h | None \<Rightarrow> labels h @ [l])"
  by (simp add: Fill_label_def FindBin_label_def split: option.splits)

lemma prefix_labels_Fill_label: "prefix (labels h) (labels (Fill_label h l w))"
  by (simp add: labels_Fill_label split: option.splits)

lemma Fill_label_relabel:
  assumes "prefix (labels (Fill_label h l w)) L"
  shows "Fill_label (h\<lparr>labels := L\<rparr>) l w = (Fill_label h l w)\<lparr>labels := L\<rparr>"
proof (cases "FindObject (labels h) l")
  case None
  then have "FindObject L l = Some (length (labels h) + 1)"
    using assms by (simp add: labels_Fill_label FindObject_new)
  with None show ?thesis
    by (simp add: Fill_label_def FindBin_label_def)
next
  case (Some b)
  then have "FindObject L l = Some b"
    using assms by (simp add: labels_Fill_label FindObject_prefix)
  with Some show ?thesis
    by (simp add: Fill_label_def FindBin_label_def)
qed

lemma prefix_labels_cutflow_step: "prefix (labels h) (labels (cutflow_step passed h))"
  by (cases passed)
    (auto simp: cutflow_step_def
      intro: prefix_order.trans[OF prefix_labels_Fill_label prefix_labels_Fill_label]
        prefix_labels_Fill_label)

lemma cutflow_step_relabel:
  assumes "prefix (labels (cutflow_step passed h)) L"
  shows "cutflow_step passed (h\<lparr>labels := L\<rparr>) = (cutflow_step passed h)\<lparr>labels := L\<rparr>"
proof (cases passed)
  case True
  let ?h1 = "Fill_label h ''total'' 1"
  from assms True have p2: "prefix (labels (Fill_label ?h1 met_thresh_label 1)) L"
    by (simp add: cutflow_step_def)
  have p1: "prefix (labels ?h1) L"
    by (rule prefix_order.trans[OF prefix_labels_Fill_label p2])
  have a: "Fill_label (h\<lparr>labels := L\<rparr>) ''total'' 1 = ?h1\<lparr>labels := L\<rparr>"
    by (rule Fill_label_relabel[OF p1])
  have b: "Fill_label (?h1\<lparr>labels := L\<rparr>) met_thresh_label 1 =
           (Fill_label ?h1 met_thresh_label 1)\<lparr>labels := L\<rparr>"
    by (rule Fill_label_relabel[OF p2])
  show ?thesis
    using True unfolding cutflow_step_def by (simp only: a b if_True)
next
  case False
  then show ?thesis
    using assms by (simp add: cutflow_step_def Fill_label_relabel)
qed

lemma Reset_Fill: "Reset (Fill h x) = Reset h"
  by (simp add: Reset_def Fill_def Let_def)

lemma Reset_Fill_label: "Reset (Fill_label h l w) = (Reset h)\<lparr>labels := labels (Fill_label h l w)\<rparr>"
  by (simp add: Reset_def Fill_label_def FindBin_label_def split: option.splits)

lemma labels_Reset: "labels (Reset h) = labels h"
  by (simp add: Reset_def)

lemma Reset_cutflow_step:
  "Reset (cutflow_step passed h) = (Reset h)\<lparr>labels := labels (cutflow_step passed h)\<rparr>"
  by (simp add: cutflow_step_def Reset_Fill_label labels_Fill_label labels_Reset split: option.splits)

subsection \<open>The cutflow histogram in one event\<close>

lemma process_event_cutflow:
  assumes "process_event ev hl = Inr (passed, hl1)"
  shows "\<exists>hc. hl ''cutflow'' = Some hc \<and> hl1 ''cutflow'' = Some (cutflow_step passed hc)"
  using assms
  by (auto simp: process_event_def bind_err_Inr_iff call_hist_Inr_iff Let_def cutflow_step_def
      split: if_splits)

lemma process_event_high_manyjets:
  assumes "met_et_GeV ev = Inr met" "\<not> met < real_of_int met_thresh" "jet_n ev \<ge> 2"
  shows "process_event ev hl = Inr r \<longleftrightarrow>
     (\<exists>hc hm hj jet0 jet1 h0 h1 h2 h3.
        hl ''cutflow'' = Some hc \<and> hl ''met_et'' = Some hm \<and> hl ''jet_n'' = Some hj \<and>
        jet_vector ev 0 = Inr jet0 \<and> jet_vector ev 1 = Inr jet1 \<and>
        hl ''jet0_pt'' = Some h0 \<and> hl ''jet1_pt'' = Some h1 \<and>
        hl ''jet0_eta'' = Some h2 \<and> hl ''jet1_eta'' = Some h3 \<and>
        r = (True, hl(''cutflow'' \<mapsto> Fill_label (Fill_label hc ''total'' 1) met_thresh_label 1,
                      ''met_et'' \<mapsto> Fill hm met,
                      ''jet_n'' \<mapsto> Fill hj (real (jet_n ev)),
                      ''jet0_pt'' \<mapsto> Fill h0 (Pt jet0 * GeV),
                      ''jet1_pt'' \<mapsto> Fill h1 (Pt jet1 * GeV),
                      ''jet0_eta'' \<mapsto> Fill h2 (Eta jet0),
                      ''jet1_eta'' \<mapsto> Fill h3 (Eta jet1))))"
  using assms
  by (auto simp: process_event_def bind_err_Inr_iff call_hist_Inr_iff fun_upd_twist Let_def)

lemma process_event_met:
  assumes "process_event ev hl = Inr r"
  obtains met where "met_et_GeV ev = Inr met"
  using assms by (auto simp: process_event_def bind_err_Inr_iff)

text \<open>
  The contents of the cutflow histogram never decide what an event does: with another
  cutflow histogram the event takes the same path and fills the others the same way.
\<close>

lemma process_event_replace_cutflow:
  assumes "process_event ev hl = Inr (passed, hl1)"
  shows "process_event ev (hl(''cutflow'' \<mapsto> hc2)) =
           Inr (passed, hl1(''cutflow'' \<mapsto> cutflow_step passed hc2))"
proof -
  from assms obtain met where met: "met_et_GeV ev = Inr met"
    by (rule process_event_met)
  consider (low) "met < real_of_int met_thresh"
    | (few) "\<not> met < real_of_int met_thresh" "jet_n ev < 2"
    | (many) "\<not> met < real_of_int met_thresh" "jet_n ev \<ge> 2"
    by linarith
  then show ?thesis
  proof cases
    case low
    from assms show ?thesis
      unfolding process_event_low[OF met low]
      by (auto simp: cutflow_step_def intro!: ext)
  next
    case few
    from assms show ?thesis
      unfolding process_event_high_fewjets[OF met few]
      by (auto simp: cutflow_step_def intro!: ext)
  next
    case many
    from assms show ?thesis
      unfolding process_event_high_manyjets[OF met many]
      by (auto simp: cutflow_step_def intro!: ext)
  qed
qed

subsection \<open>The event loop\<close>

text \<open>
  Facts about the loop are proved by induction on the events still to come, with the counters and the dictionary generalised.
\<close>

lemma event_loop_stop:
  "max_events \<le> evt_cnt \<Longrightarrow> event_loop tree max_events evt_cnt passed_cnt hl = Inr (passed_cnt, hl)"
  by (cases tree) simp_all

lemma event_loop_Cons_Inr:
  assumes "event_loop (ev # tree) max_events evt_cnt passed_cnt hl = Inr r"
  obtains (stop) "max_events \<le> evt_cnt" "r = (passed_cnt, hl)"
  | (step) passed hl1 where "evt_cnt < max_events" "process_event ev hl = Inr (passed, hl1)"
      "event_loop tree max_events (evt_cnt + 1) (if passed then passed_cnt + 1 else passed_cnt) hl1 = Inr r"
  using assms by (auto simp: bind_err_Inr_iff split: if_splits)

lemma event_loop_frame:
  assumes "event_loop tree max_events evt_cnt passed_cnt hl = Inr (cnt, hl')"
    and "k \<notin> {''cutflow'', ''met_et'', ''jet_n'', ''jet0_pt'', ''jet1_pt'', ''jet0_eta'', ''jet1_eta''}"
  shows "hl' k = hl k"
  using assms(1)
proof (induction tree arbitrary: evt_cnt passed_cnt hl)
  case Nil
  then show ?case by simp
next
  case (Cons ev tree)
  from Cons.prems show ?case
  proof (cases rule: event_loop_Cons_Inr)
    case stop
    then show ?thesis by simp
  next
    case (step passed hl1)
    have "hl' k = hl1 k" using Cons.IH[OF step(3)] .
    also have "hl1 k = hl k" using process_event_frame[OF step(2) assms(2)] .
    finally show ?thesis .
  qed
qed

lemma process_event_Reset_other:
  assumes "process_event ev hl = Inr (passed, hl1)" "k \<noteq> ''cutflow''"
  shows "map_option Reset (hl1 k) = map_option Reset (hl k)"
  using assms
  by (auto simp: process_event_def bind_err_Inr_iff call_hist_Inr_iff Let_def Reset_Fill split: if_splits)

lemma event_loop_Reset_other:
  assumes "event_loop tree max_events evt_cnt passed_cnt hl = Inr (cnt, hl')" "k \<noteq> ''cutflow''"
  shows "map_option Reset (hl' k) = map_option Reset (hl k)"
  using assms(1)
proof (induction tree arbitrary: evt_cnt passed_cnt hl)
  case Nil
  then show ?case by simp
next
  case (Cons ev tree)
  from Cons.prems show ?case
  proof (cases rule: event_loop_Cons_Inr)
    case stop
    then show ?thesis by simp
  next
    case (step passed hl1)
    show ?thesis
      using Cons.IH[OF step(3)] process_event_Reset_other[OF step(2) assms(2)] by simp
  qed
qed

lemma event_loop_cutflow:
  assumes "event_loop tree max_events evt_cnt passed_cnt hl = Inr (cnt, hl')"
  shows "(hl ''cutflow'' = None \<and> hl' ''cutflow'' = None) \<or>
         (\<exists>hc hc'. hl ''cutflow'' = Some hc \<and> hl' ''cutflow'' = Some hc' \<and>
            prefix (labels hc) (labels hc') \<and> Reset hc' = (Reset hc)\<lparr>labels := labels hc'\<rparr>)"
  using assms
proof (induction tree arbitrary: evt_cnt passed_cnt hl)
  case Nil
  then show ?case by (cases "hl ''cutflow''") (auto simp: Reset_def)
next
  case (Cons ev tree)
  from Cons.prems show ?case
  proof (cases rule: event_loop_Cons_Inr)
    case stop
    then show ?thesis by (cases "hl ''cutflow''") (auto simp: Reset_def)
  next
    case (step passed hl1)
    from process_event_cutflow[OF step(2)] obtain hc where
      hc: "hl ''cutflow'' = Some hc" "hl1 ''cutflow'' = Some (cutflow_step passed hc)"
      by blast
    from Cons.IH[OF step(3)] hc(2) obtain hc' where
      hc': "hl' ''cutflow'' = Some hc'" "prefix (labels (cutflow_step passed hc)) (labels hc')"
        "Reset hc' = (Reset (cutflow_step passed hc))\<lparr>labels := labels hc'\<rparr>"
      by auto
    have "prefix (labels hc) (labels hc')"
      by (rule prefix_order.trans[OF prefix_labels_cutflow_step hc'(2)])
    moreover have "Reset hc' = (Reset hc)\<lparr>labels := labels hc'\<rparr>"
      using hc'(3) by (simp add: Reset_cutflow_step)
    ultimately show ?thesis
      using hc(1) hc'(1) by simp
  qed
qed

lemma relabel_cutflow_Some:
  "hl ''cutflow'' = Some hc \<Longrightarrow> relabel_cutflow L hl = hl(''cutflow'' \<mapsto> hc\<lparr>labels := L\<rparr>)"
  by (simp add: relabel_cutflow_def)

lemma event_loop_relabel:
  assumes "event_loop tree max_events evt_cnt passed_cnt hl = Inr (cnt, hl')"
    and "hl' ''cutflow'' = Some hc'" "prefix (labels hc') L"
  shows "event_loop tree max_events evt_cnt passed_cnt (relabel_cutflow L hl) =
           Inr (cnt, relabel_cutflow L hl')"
  using assms(1)
proof (induction tree arbitrary: evt_cnt passed_cnt hl)
  case Nil
  then show ?case by simp
next
  case (Cons ev tree)
  from Cons.prems show ?case
  proof (cases rule: event_loop_Cons_Inr)
    case stop
    then show ?thesis by simp
  next
    case (step passed hl1)
    from process_event_cutflow[OF step(2)] obtain hc where
      hc: "hl ''cutflow'' = Some hc" "hl1 ''cutflow'' = Some (cutflow_step passed hc)"
      by blast
    from event_loop_cutflow[OF step(3)] hc(2) assms(2)
    have "prefix (labels (cutflow_step passed hc)) (labels hc')"
      by auto
    then have pre: "prefix (labels (cutflow_step passed hc)) L"
      using assms(3) by (rule prefix_order.trans)
    have "process_event ev (relabel_cutflow L hl) =
            Inr (passed, hl1(''cutflow'' \<mapsto> cutflow_step passed (hc\<lparr>labels := L\<rparr>)))"
      unfolding relabel_cutflow_Some[where hl=hl, OF hc(1)]
      by (rule process_event_replace_cutflow[OF step(2)])
    also have "hl1(''cutflow'' \<mapsto> cutflow_step passed (hc\<lparr>labels := L\<rparr>)) = relabel_cutflow L hl1"
      by (simp add: relabel_cutflow_Some[where hl=hl1, OF hc(2)] cutflow_step_relabel[OF pre])
    finally have pe: "process_event ev (relabel_cutflow L hl) = Inr (passed, relabel_cutflow L hl1)" .
    show ?thesis
      using step(1) pe Cons.IH[OF step(3)] by simp
  qed
qed

lemma Reset_Reset: "Reset (Reset h) = Reset h"
  by (simp add: Reset_def)

lemma analyse_events_again:
  assumes "analyse_events tree hl max_events = Inr (cnt, hl1)"
  shows "analyse_events tree hl1 max_events = Inr (cnt, hl1)"
proof -
  let ?S = "reset_all hl"
  from assms have run: "event_loop tree max_events 0 0 ?S = Inr (cnt, hl1)"
    by (simp add: analyse_events_def)
  have other: "reset_all hl1 k = ?S k" if "k \<noteq> ''cutflow''" for k
    using event_loop_Reset_other[OF run that]
    by (simp add: reset_all_def option.map_comp comp_def Reset_Reset)
  from event_loop_cutflow[OF run] show ?thesis
  proof
    assume none: "?S ''cutflow'' = None \<and> hl1 ''cutflow'' = None"
    have "reset_all hl1 = ?S"
    proof
      fix k show "reset_all hl1 k = ?S k"
        using other[of k] none by (cases "k = ''cutflow''") (simp_all add: reset_all_def)
    qed
    with run show ?thesis by (simp add: analyse_events_def)
  next
    assume "\<exists>hc hc'. ?S ''cutflow'' = Some hc \<and> hl1 ''cutflow'' = Some hc' \<and>
            prefix (labels hc) (labels hc') \<and> Reset hc' = (Reset hc)\<lparr>labels := labels hc'\<rparr>"
    then obtain hc hc' where
      hc: "?S ''cutflow'' = Some hc" and hc': "hl1 ''cutflow'' = Some hc'"
      and res: "Reset hc' = (Reset hc)\<lparr>labels := labels hc'\<rparr>"
      by blast
    from hc have "Reset hc = hc"
      by (auto simp: reset_all_def Reset_def)
    with res have res': "Reset hc' = hc\<lparr>labels := labels hc'\<rparr>" by simp
    have "reset_all hl1 = relabel_cutflow (labels hc') ?S"
    proof
      fix k show "reset_all hl1 k = relabel_cutflow (labels hc') ?S k"
      proof (cases "k = ''cutflow''")
        case True
        then show ?thesis
          using hc hc' res' by (simp add: relabel_cutflow_Some[where hl="reset_all hl", OF hc]) (simp add: reset_all_def)
      next
        case False
        then show ?thesis
          using other[OF False] by (simp add: relabel_cutflow_Some[where hl="reset_all hl", OF hc])
      qed
    qed
    moreover have "relabel_cutflow (labels hc') hl1 = hl1"
      using hc' by (auto simp: relabel_cutflow_Some[where hl=hl1, OF hc'])
    ultimately show ?thesis
      using event_loop_relabel[OF run hc', of "labels hc'"] by (simp add: analyse_events_def)
  qed
qed

subsection \<open>Bins of the cutflow histogram\<close>

lemma FindObject_pos: "FindObject ls l = Some b \<Longrightarrow> 0 < b"
  by (induction ls arbitrary: b) (auto split: if_splits)

lemma FindObject_inj:
  "FindObject ls l = Some b \<Longrightarrow> FindObject ls l' = Some b \<Longrightarrow> l = l'"
proof (induction ls arbitrary: b)
  case Nil
  then show ?case by simp
next
  case (Cons x xs)
  show ?case
  proof (cases "x = l \<or> x = l'")
    case True
    then show ?thesis
      using Cons.prems by (auto split: if_splits dest: FindObject_pos)
  next
    case False
    then show ?thesis
      using Cons.prems Cons.IH by auto
  qed
qed

lemma FindObject_Fill_label:
  "FindObject (labels (Fill_label h l w)) l =
     Some (case FindObject (labels h) l of Some b \<Rightarrow> b | None \<Rightarrow> length (labels h) + 1)"
  by (simp add: labels_Fill_label FindObject_append split: option.splits)

lemma contents_Fill_label:
  "FindObject (labels (Fill_label h l w)) l = Some b \<Longrightarrow>
   contents (Fill_label h l w) = (contents h)(b := contents h b + w)"
  by (auto simp: Fill_label_def FindBin_label_def FindObject_append split: option.splits)

lemma entries_Fill_label: "entries (Fill_label h l w) = entries h + 1"
  by (simp add: Fill_label_def FindBin_label_def split: option.splits)

lemma cutflow_two_fills:
  fixes h :: TH1F
  assumes "l1 \<noteq> l2"
  defines "h2 \<equiv> Fill_label (Fill_label h l1 1) l2 1"
  shows "\<exists>b1 b2. FindObject (labels h2) l1 = Some b1 \<and> FindObject (labels h2) l2 = Some b2 \<and>
           b1 \<noteq> b2 \<and> contents h2 b1 = contents h b1 + 1 \<and> contents h2 b2 = contents h b2 + 1 \<and>
           (\<forall>b. b \<noteq> b1 \<and> b \<noteq> b2 \<longrightarrow> contents h2 b = contents h b) \<and>
           entries h2 = entries h + 2"
proof -
  let ?h1 = "Fill_label h l1 1"
  obtain b1 where b1: "FindObject (labels ?h1) l1 = Some b1"
    by (simp add: FindObject_Fill_label)
  obtain b2 where b2: "FindObject (labels h2) l2 = Some b2"
    by (simp add: FindObject_Fill_label h2_def)
  have b1': "FindObject (labels h2) l1 = Some b1"
    unfolding h2_def by (rule FindObject_prefix[OF prefix_labels_Fill_label b1])
  have ne: "b1 \<noteq> b2"
    using FindObject_inj[OF b1'] b2 assms(1) by auto
  have c1: "contents ?h1 = (contents h)(b1 := contents h b1 + 1)"
    by (rule contents_Fill_label[OF b1])
  have c2: "contents h2 = (contents ?h1)(b2 := contents ?h1 b2 + 1)"
    unfolding h2_def by (rule contents_Fill_label[OF b2[unfolded h2_def]])
  have "entries h2 = entries h + 2"
    by (simp add: h2_def entries_Fill_label)
  with b1' b2 ne c1 c2 show ?thesis
    by auto
qed

lemma jet_vector_wf:
  "k < length (jet_pt ev) \<Longrightarrow> k < length (jet_eta ev) \<Longrightarrow> k < length (jet_phi ev) \<Longrightarrow>
   k < length (jet_E ev) \<Longrightarrow>
   jet_vector ev k =
     Inr (SetPtEtaPhiE (jet_pt ev ! k) (jet_eta ev ! k) (jet_phi ev ! k) (jet_E ev ! k))"
  by (simp add: jet_vector_def getitem_def)

lemma process_event_total:
  assumes met: "met_et_GeV ev = Inr met" and wf: "wf_event ev" and has: "has_histograms hl"
  shows "\<exists>hl'. process_event ev hl = Inr (\<not> met < real_of_int met_thresh, hl')"
proof -
  from has obtain hc hm hj h0 h1 h2 h3 where
    hs: "hl ''cutflow'' = Some hc" "hl ''met_et'' = Some hm" "hl ''jet_n'' = Some hj"
      "hl ''jet0_pt'' = Some h0" "hl ''jet1_pt'' = Some h1"
      "hl ''jet0_eta'' = Some h2" "hl ''jet1_eta'' = Some h3"
    by (auto simp: has_histograms_def)
  consider (low) "met < real_of_int met_thresh"
    | (few) "\<not> met < real_of_int met_thresh" "jet_n ev < 2"
    | (many) "\<not> met < real_of_int met_thresh" "jet_n ev \<ge> 2"
    by linarith
  then show ?thesis
  proof cases
    case low
    then show ?thesis
      using hs by (simp add: process_event_low[OF met low])
  next
    case few
    then show ?thesis
      using hs by (simp add: process_event_high_fewjets[OF met few])
  next
    case many
    from many(2) wf have len: "2 \<le> length (jet_pt ev)" "2 \<le> length (jet_eta ev)"
      "2 \<le> length (jet_phi ev)" "2 \<le> length (jet_E ev)"
      by (auto simp: wf_event_def)
    have "jet_vector ev 0 =
        Inr (SetPtEtaPhiE (jet_pt ev ! 0) (jet_eta ev ! 0) (jet_phi ev ! 0) (jet_E ev ! 0))"
      by (rule jet_vector_wf; insert len, linarith)
    moreover have "jet_vector ev 1 =
        Inr (SetPtEtaPhiE (jet_pt ev ! 1) (jet_eta ev ! 1) (jet_phi ev ! 1) (jet_E ev ! 1))"
      by (rule jet_vector_wf; insert len, linarith)
    ultimately show ?thesis
      using hs many(1) by (simp add: process_event_high_manyjets[OF met many])
  qed
qed

subsection \<open>The example events\<close>

lemma has_histograms_get_histograms: "has_histograms get_histograms"
  by (simp add: has_histograms_def get_histograms_def)

lemma has_histograms_reset_all: "has_histograms (reset_all hl) = has_histograms hl"
  by (simp add: has_histograms_def reset_all_def)

lemma met_ev_met250: "met_et_GeV ev_met250 = Inr 250"
  using met_et_GeV_azimuth_0[of ev_met250] by (simp add: ev_met250_def GeV_def)

lemma met_ev_met250_dijet: "met_et_GeV ev_met250_dijet = Inr 250"
  using met_et_GeV_azimuth_0[of ev_met250_dijet] by (simp add: ev_met250_dijet_def GeV_def)

lemma met_ev_met100_dijet: "met_et_GeV ev_met100_dijet = Inr 100"
  using met_et_GeV_azimuth_0[of ev_met100_dijet] by (simp add: ev_met100_dijet_def GeV_def)

lemma wf_examples:
  "wf_event ev_met250" "wf_event ev_met100_dijet" "wf_event ev_met250_dijet"
  by (simp_all add: wf_event_def ev_met250_def ev_met100_dijet_def
      ev_met250_dijet_def)

subsection \<open>A pass returns on well-formed input\<close>

text \<open>
  The names of the dictionary do not change, so a dictionary that has the filled histograms keeps them; with well-formed events no statement of the loop raises.
\<close>

lemma process_event_dom:
  assumes "process_event ev hl = Inr (passed, hl')"
  shows "dom hl' = dom hl"
proof -
  from assms obtain met where met: "met_et_GeV ev = Inr met"
    by (rule process_event_met)
  consider (low) "met < real_of_int met_thresh"
    | (few) "\<not> met < real_of_int met_thresh" "jet_n ev < 2"
    | (many) "\<not> met < real_of_int met_thresh" "jet_n ev \<ge> 2"
    by linarith
  then show ?thesis
  proof cases
    case low
    from assms[unfolded process_event_low[OF met low]] obtain hc hm where
      "hl ''cutflow'' = Some hc" "hl ''met_et'' = Some hm"
      "hl' = hl(''cutflow'' \<mapsto> Fill_label hc ''total'' 1, ''met_et'' \<mapsto> Fill hm met)"
      by auto
    then show ?thesis
      by (simp add: insert_absorb domI)
  next
    case few
    from assms[unfolded process_event_high_fewjets[OF met few]] obtain hc hm hj where
      "hl ''cutflow'' = Some hc" "hl ''met_et'' = Some hm" "hl ''jet_n'' = Some hj"
      "hl' = hl(''cutflow'' \<mapsto> Fill_label (Fill_label hc ''total'' 1) met_thresh_label 1,
                ''met_et'' \<mapsto> Fill hm met,
                ''jet_n'' \<mapsto> Fill hj (real (jet_n ev)))"
      by auto
    then show ?thesis
      by (simp add: insert_absorb domI)
  next
    case many
    from assms[unfolded process_event_high_manyjets[OF met many]]
    obtain hc hm hj jet0 jet1 h0 h1 h2 h3 where
      "hl ''cutflow'' = Some hc" "hl ''met_et'' = Some hm" "hl ''jet_n'' = Some hj"
      "hl ''jet0_pt'' = Some h0" "hl ''jet1_pt'' = Some h1"
      "hl ''jet0_eta'' = Some h2" "hl ''jet1_eta'' = Some h3"
      "hl' = hl(''cutflow'' \<mapsto> Fill_label (Fill_label hc ''total'' 1) met_thresh_label 1,
                ''met_et'' \<mapsto> Fill hm met,
                ''jet_n'' \<mapsto> Fill hj (real (jet_n ev)),
                ''jet0_pt'' \<mapsto> Fill h0 (Pt jet0 * GeV),
                ''jet1_pt'' \<mapsto> Fill h1 (Pt jet1 * GeV),
                ''jet0_eta'' \<mapsto> Fill h2 (Eta jet0),
                ''jet1_eta'' \<mapsto> Fill h3 (Eta jet1))"
      by auto
    then show ?thesis
      by (simp add: insert_absorb domI)
  qed
qed

lemma process_event_has_histograms:
  assumes "process_event ev hl = Inr (passed, hl')"
  shows "has_histograms hl' = has_histograms hl"
proof -
  have "hl' k \<noteq> None \<longleftrightarrow> hl k \<noteq> None" for k
    using process_event_dom[OF assms] by (metis domIff)
  then show ?thesis
    by (simp add: has_histograms_def)
qed

lemma event_loop_total:
  assumes "list_all wf_event tree" "has_histograms hl"
  shows "\<exists>cnt hl'. event_loop tree max_events evt_cnt passed_cnt hl = Inr (cnt, hl')"
  using assms
proof (induction tree arbitrary: evt_cnt passed_cnt hl)
  case Nil
  then show ?case by simp
next
  case (Cons ev tree)
  show ?case
  proof (cases "max_events \<le> evt_cnt")
    case True
    then show ?thesis by simp
  next
    case False
    from Cons.prems(1) have wf: "wf_event ev" and rest: "list_all wf_event tree"
      by simp_all
    from wf obtain met where met: "met_et_GeV ev = Inr met"
      using met_et_GeV_returns[of ev] by (auto simp: wf_event_def)
    from process_event_total[OF met wf Cons.prems(2)] obtain passed hl1 where
      pe: "process_event ev hl = Inr (passed, hl1)"
      by blast
    have "has_histograms hl1"
      using process_event_has_histograms[OF pe] Cons.prems(2) by simp
    from Cons.IH[OF rest this] show ?thesis
      using False pe by simp
  qed
qed

lemma analyse_events_total:
  assumes "list_all wf_event tree" "has_histograms hl"
  shows "\<exists>cnt hl'. analyse_events tree hl max_events = Inr (cnt, hl')"
  unfolding analyse_events_def
  by (rule event_loop_total[OF assms(1)]) (simp add: has_histograms_reset_all assms(2))

lemma process_event_passes_met:
  assumes "process_event ev hl = Inr (passed, hl')"
  shows "passed \<longleftrightarrow> passes_met ev"
proof -
  from assms obtain met where met: "met_et_GeV ev = Inr met"
    by (rule process_event_met)
  show ?thesis
    using process_event_passed[OF met assms] by (simp add: passes_met_def met not_less)
qed

lemma event_loop_count:
  assumes "event_loop tree max_events evt_cnt passed_cnt hl = Inr (cnt, hl')"
  shows "cnt = passed_cnt + int (length (filter passes_met (take (nat (max_events - evt_cnt)) tree)))"
  using assms
proof (induction tree arbitrary: evt_cnt passed_cnt hl)
  case Nil
  then show ?case by simp
next
  case (Cons ev tree)
  from Cons.prems show ?case
  proof (cases rule: event_loop_Cons_Inr)
    case stop
    then show ?thesis by simp
  next
    case (step passed hl1)
    from step(1) have n: "nat (max_events - evt_cnt) = Suc (nat (max_events - (evt_cnt + 1)))"
      by simp
    have p: "passed \<longleftrightarrow> passes_met ev"
      by (rule process_event_passes_met[OF step(2)])
    show ?thesis
      using Cons.IH[OF step(3)] p unfolding n by simp
  qed
qed

subsection \<open>Further facts used below\<close>

lemma cutflow_step_passed:
  "\<exists>bt bm. FindObject (labels (cutflow_step True h)) ''total'' = Some bt \<and>
     FindObject (labels (cutflow_step True h)) met_thresh_label = Some bm \<and> bt \<noteq> bm \<and>
     contents (cutflow_step True h) = (contents h)(bt := contents h bt + 1, bm := contents h bm + 1) \<and>
     entries (cutflow_step True h) = entries h + 2"
proof -
  have ne: "''total'' \<noteq> met_thresh_label"
    by (simp add: met_thresh_label_def)
  from cutflow_two_fills[OF ne, of h] obtain b1 b2 where
    b: "FindObject (labels (cutflow_step True h)) ''total'' = Some b1"
      "FindObject (labels (cutflow_step True h)) met_thresh_label = Some b2"
      "b1 \<noteq> b2"
      "contents (cutflow_step True h) b1 = contents h b1 + 1"
      "contents (cutflow_step True h) b2 = contents h b2 + 1"
      "\<forall>b. b \<noteq> b1 \<and> b \<noteq> b2 \<longrightarrow> contents (cutflow_step True h) b = contents h b"
      "entries (cutflow_step True h) = entries h + 2"
    unfolding cutflow_step_def by auto
  have "contents (cutflow_step True h) = (contents h)(b1 := contents h b1 + 1, b2 := contents h b2 + 1)"
  proof
    fix x show "contents (cutflow_step True h) x =
        ((contents h)(b1 := contents h b1 + 1, b2 := contents h b2 + 1)) x"
      using b(3,4,5,6) by (cases "x = b1"; cases "x = b2") simp_all
  qed
  with b(1,2,3,7) show ?thesis
    by blast
qed

lemma reset_all_reset_all: "reset_all (reset_all hl) = reset_all hl"
  by (rule ext) (simp add: reset_all_def option.map_comp comp_def Reset_Reset)

lemma analyse_events_default_nothing:
  "analyse_events_default tree hl = Inr (0, reset_all hl)"
  by (simp add: analyse_events_default_def analyse_events_def event_loop_stop)

lemma Reset_TH1F_new: "Reset (TH1F_new n lo hi) = TH1F_new n lo hi"
  by (simp add: Reset_def TH1F_new_def)

lemma passes_examples:
  "passes_met ev_met250_dijet" "\<not> passes_met ev_met100_dijet" "passes_met ev_met250"
  by (simp_all add: passes_met_def met_ev_met250_dijet met_ev_met100_dijet met_ev_met250
      met_thresh_def)

lemma analyse_three_events:
  "\<exists>hl'. analyse_events [ev_met250_dijet, ev_met100_dijet, ev_met250] get_histograms 3 = Inr (2, hl')"
proof -
  let ?tree = "[ev_met250_dijet, ev_met100_dijet, ev_met250]"
  obtain cnt hl' where r: "analyse_events ?tree get_histograms 3 = Inr (cnt, hl')"
    using analyse_events_total[of ?tree get_histograms 3] wf_examples has_histograms_get_histograms
    by auto
  then have "cnt = int (length (filter passes_met (take (nat 3) ?tree)))"
    using event_loop_count[of ?tree 3 0 0 "reset_all get_histograms" cnt hl']
    by (simp add: analyse_events_def)
  then have "cnt = 2"
    using passes_examples by (simp add: numeral_3_eq_3)
  with r show ?thesis
    by blast
qed

lemma sqrt_then_divide:
  "bind_err (math_sqrt x) (\<lambda>root. truediv a root) =
     (if x < 0 then Inl ValueError
      else if x = 0 then Inl ZeroDivisionError
      else Inr (a / sqrt x))"
  by (simp add: math_sqrt_def truediv_def)

section \<open>The properties of the notebook\<close>

subsection \<open>The default of max_events\<close>

text \<open>
  \<^bold>\<open>C2.\<close> The specification has a call without \<^verbatim>\<open>max_events\<close> process the
  whole tree. The code does not: the default is \<^verbatim>\<open>-1\<close>, and the first test
  \<^verbatim>\<open>evt_cnt >= max_events\<close> is \<open>0 \<ge> -1\<close>, so the loop breaks before the first
  event. On a tree of one event with 250 GeV of missing energy the call with the default
  returns 0 and leaves every histogram reset, while the call with \<^verbatim>\<open>max_events = 1\<close>
  counts the event.
\<close>

theorem default_max_events_processes_nothing:
  "analyse_events_default [ev_met250] get_histograms = Inr (0, reset_all get_histograms) \<and>
   (\<exists>hl'. analyse_events [ev_met250] get_histograms 1 = Inr (1, hl'))"
proof -
  obtain cnt hl' where r: "analyse_events [ev_met250] get_histograms 1 = Inr (cnt, hl')"
    using analyse_events_total[of "[ev_met250]" get_histograms 1] wf_examples
      has_histograms_get_histograms
    by auto
  then have "cnt = int (length (filter passes_met (take (nat 1) [ev_met250])))"
    using event_loop_count[of "[ev_met250]" 1 0 0 "reset_all get_histograms" cnt hl']
    by (simp add: analyse_events_def)
  then have "cnt = 1"
    using passes_examples by simp
  with r show ?thesis
    by (simp add: analyse_events_default_nothing)
qed

subsection \<open>Events below the threshold\<close>

text \<open>
  \<^bold>\<open>C3.\<close> An event whose effective missing transverse energy is strictly below
  \<^verbatim>\<open>met_thresh\<close> does not reach \<^verbatim>\<open>passed_cnt += 1\<close>, and none of the
  jet-kinematic histograms \<^verbatim>\<open>jet0_pt\<close>, \<^verbatim>\<open>jet1_pt\<close>, \<^verbatim>\<open>jet0_eta\<close>,
  \<^verbatim>\<open>jet1_eta\<close> is filled for it: the loop goes on with the passed count it had.
\<close>

theorem below_threshold_not_passed:
  assumes "met_et_GeV ev = Inr met" and "met < real_of_int met_thresh"
    and "process_event ev hl = Inr (passed, hl')"
  shows "\<not> passed \<and>
         hl' ''jet0_pt'' = hl ''jet0_pt'' \<and> hl' ''jet1_pt'' = hl ''jet1_pt'' \<and>
         hl' ''jet0_eta'' = hl ''jet0_eta'' \<and> hl' ''jet1_eta'' = hl ''jet1_eta'' \<and>
         (evt_cnt < max_events \<longrightarrow>
            event_loop (ev # tree) max_events evt_cnt passed_cnt hl =
            event_loop tree max_events (evt_cnt + 1) passed_cnt hl')"
proof -
  have np: "\<not> passed"
    using process_event_passed[OF assms(1,3)] assms(2) by simp
  have "hl' k = hl k" if "k \<notin> {''cutflow'', ''met_et''}" for k
    by (rule process_event_frame_low[OF assms(3,1,2) that])
  then have "hl' ''jet0_pt'' = hl ''jet0_pt''" "hl' ''jet1_pt'' = hl ''jet1_pt''"
    "hl' ''jet0_eta'' = hl ''jet0_eta''" "hl' ''jet1_eta'' = hl ''jet1_eta''"
    by simp_all
  then show ?thesis
    using np assms(3) by simp
qed

theorem below_threshold_not_passed_witness:
  "met_et_GeV ev_met100_dijet = Inr 100 \<and> (100 :: real) < real_of_int met_thresh \<and>
   (\<exists>hl'. process_event ev_met100_dijet get_histograms = Inr (False, hl') \<and>
      hl' ''jet0_pt'' = get_histograms ''jet0_pt'' \<and>
      hl' ''jet1_pt'' = get_histograms ''jet1_pt'' \<and>
      hl' ''jet0_eta'' = get_histograms ''jet0_eta'' \<and>
      hl' ''jet1_eta'' = get_histograms ''jet1_eta'' \<and>
      event_loop [ev_met100_dijet] 1 0 0 get_histograms = Inr (0, hl'))"
proof -
  have lt: "(100 :: real) < real_of_int met_thresh"
    by (simp add: met_thresh_def)
  obtain hl' where pe: "process_event ev_met100_dijet get_histograms = Inr (False, hl')"
    using process_event_total[OF met_ev_met100_dijet wf_examples(2) has_histograms_get_histograms] lt
    by auto
  note t = below_threshold_not_passed[OF met_ev_met100_dijet lt pe,
      where evt_cnt = 0 and max_events = 1 and tree = "[]" and passed_cnt = 0]
  have z: "(0 :: int) < 1"
    by simp
  from t z have "event_loop [ev_met100_dijet] 1 0 0 get_histograms = event_loop [] 1 (0 + 1) 0 hl'"
    by blast
  then have "event_loop [ev_met100_dijet] 1 0 0 get_histograms = Inr (0, hl')"
    by (simp only: event_loop.simps)
  with t pe lt met_ev_met100_dijet show ?thesis
    by blast
qed

subsection \<open>The significance\<close>

text \<open>
  \<^bold>\<open>C4.\<close> The significance is \<open>signal \<times> L / sqrt (background \<times> L)\<close> with
  \<open>L = lumi_factor\<close>, and where \<open>background \<times> L \<le> 0\<close> the computation raises:
  \<^verbatim>\<open>math.sqrt\<close> raises \<^verbatim>\<open>ValueError\<close> on a negative product, and the division
  raises \<^verbatim>\<open>ZeroDivisionError\<close> when the product, and so its root, is 0. No number is
  returned in either case.
\<close>

theorem significance_formula_or_error:
  "(0 < background * lumi_factor \<longrightarrow>
      significance signal background =
        Inr (signal * lumi_factor / sqrt (background * lumi_factor))) \<and>
   (background * lumi_factor < 0 \<longrightarrow> significance signal background = Inl ValueError) \<and>
   (background * lumi_factor = 0 \<longrightarrow> significance signal background = Inl ZeroDivisionError) \<and>
   (background * lumi_factor \<le> 0 \<longrightarrow> (\<exists>e. significance signal background = Inl e))"
proof -
  define x where "x = background * lumi_factor"
  have s: "significance signal background =
      (if x < 0 then Inl ValueError
       else if x = 0 then Inl ZeroDivisionError
       else Inr (signal * lumi_factor / sqrt x))"
    unfolding significance_def x_def[symmetric] by (rule sqrt_then_divide)
  have "0 < x \<longrightarrow> significance signal background = Inr (signal * lumi_factor / sqrt x)"
    "x < 0 \<longrightarrow> significance signal background = Inl ValueError"
    "x = 0 \<longrightarrow> significance signal background = Inl ZeroDivisionError"
    "x \<le> 0 \<longrightarrow> (\<exists>e. significance signal background = Inl e)"
    unfolding s by auto
  then show ?thesis
    unfolding x_def by blast
qed

theorem significance_formula_or_error_witness:
  "significance 10 600 = Inr (10 * 30 / sqrt (600 * 30)) \<and>
   significance 10 (- 1) = Inl ValueError \<and>
   significance 10 0 = Inl ZeroDivisionError"
proof -
  have a: "(0 :: real) < 600 * lumi_factor" "(- 1 :: real) * lumi_factor < 0"
    "(0 :: real) * lumi_factor = 0"
    by (simp_all add: lumi_factor_def)
  have "significance 10 600 = Inr (10 * lumi_factor / sqrt (600 * lumi_factor))"
    using significance_formula_or_error[of 600 10] a(1) by blast
  moreover have "significance 10 (- 1) = Inl ValueError"
    using significance_formula_or_error[of "- 1" 10] a(2) by blast
  moreover have "significance 10 0 = Inl ZeroDivisionError"
    using significance_formula_or_error[of 0 10] a(3) by blast
  ultimately show ?thesis
    by (simp add: lumi_factor_def)
qed

subsection \<open>The rate reduction\<close>

text \<open>
  \<^bold>\<open>C5.\<close> The rate reduction is the background yield divided by 51336, and the
  trigger is reported as affordable exactly when the rate reduction is at most 0.14:
  at 0.14 itself it is affordable, above it is not.
\<close>

theorem affordable_iff_reduction_le:
  "reduction background = background / 51336 \<and>
   (affordable background \<longleftrightarrow> reduction background \<le> 14 / 100) \<and>
   (reduction background = 14 / 100 \<longrightarrow> affordable background) \<and>
   (14 / 100 < reduction background \<longrightarrow> \<not> affordable background)"
  by (auto simp: affordable_def reduction_def)

theorem affordable_iff_reduction_le_witness:
  "reduction (718704 / 100) = 14 / 100 \<and> affordable (718704 / 100) \<and>
   affordable 7187 \<and> \<not> affordable 7188"
proof -
  have r: "reduction (718704 / 100) = 14 / 100" "reduction 7187 \<le> 14 / 100"
    "14 / 100 < reduction 7188"
    by (simp_all add: reduction_def)
  from affordable_iff_reduction_le[of "718704 / 100"] r(1) have "affordable (718704 / 100)"
    by blast
  moreover from affordable_iff_reduction_le[of 7187] r(2) have "affordable 7187"
    by blast
  moreover from affordable_iff_reduction_le[of 7188] r(3) have "\<not> affordable 7188"
    by blast
  ultimately show ?thesis
    using r(1) by blast
qed

subsection \<open>A pass over no event\<close>

text \<open>
  \<^bold>\<open>C6.\<close> With \<^verbatim>\<open>max_events = 0\<close> the call returns the passed count 0, and the
  dictionary it leaves is the one the reset produced: the same names, and every
  histogram with all bin contents 0 and no entry.
\<close>

theorem max_events_zero:
  "analyse_events tree hl 0 = Inr (0, reset_all hl) \<and>
   dom (reset_all hl) = dom hl \<and>
   (\<forall>k h. reset_all hl k = Some h \<longrightarrow>
      (\<exists>h0. hl k = Some h0 \<and> h = Reset h0) \<and> contents h = (\<lambda>b. 0) \<and> entries h = 0)"
proof (intro conjI allI impI)
  show "analyse_events tree hl 0 = Inr (0, reset_all hl)"
    by (simp add: analyse_events_def event_loop_stop)
  show "dom (reset_all hl) = dom hl"
    by (auto simp: reset_all_def)
next
  fix k h
  assume "reset_all hl k = Some h"
  then obtain h0 where h0: "hl k = Some h0" "h = Reset h0"
    by (auto simp: reset_all_def)
  then show "\<exists>h0. hl k = Some h0 \<and> h = Reset h0"
    by blast
  from h0 show "contents h = (\<lambda>b. 0)" "entries h = 0"
    by (simp_all add: Reset_def)
qed

theorem max_events_zero_witness:
  "analyse_events [ev_met250] (get_histograms(''met_et'' \<mapsto> Fill (TH1F_new 90 0 450) 250)) 0 =
     Inr (0, reset_all (get_histograms(''met_et'' \<mapsto> Fill (TH1F_new 90 0 450) 250))) \<and>
   contents (Fill (TH1F_new 90 0 450) 250) 51 = 1 \<and>
   (\<exists>h. reset_all (get_histograms(''met_et'' \<mapsto> Fill (TH1F_new 90 0 450) 250)) ''met_et'' = Some h \<and>
      contents h = (\<lambda>b. 0) \<and> entries h = 0)"
proof -
  let ?hl = "get_histograms(''met_et'' \<mapsto> Fill (TH1F_new 90 0 450) 250)"
  note t = max_events_zero[of "[ev_met250]" ?hl]
  obtain h where h: "reset_all ?hl ''met_et'' = Some h"
    by (simp add: reset_all_def)
  from t h have "contents h = (\<lambda>b. 0) \<and> entries h = 0"
    by blast
  moreover from t have "analyse_events [ev_met250] ?hl 0 = Inr (0, reset_all ?hl)"
    by blast
  moreover have "contents (Fill (TH1F_new 90 0 450) 250) 51 = 1"
    by (simp add: Fill_def FindBin_def TH1F_new_def Let_def)
  ultimately show ?thesis
    using h by blast
qed

subsection \<open>Running a pass twice\<close>

text \<open>
  \<^bold>\<open>C7.\<close> A second call of \<^verbatim>\<open>analyse_events\<close> with the same tree and the same
  \<^verbatim>\<open>max_events\<close>, on the dictionary the first call left, returns the same passed
  count and leaves the same dictionary: every histogram is reset before the first
  event, so what the dictionary held before does not matter.
\<close>

theorem second_pass_same_result:
  assumes "analyse_events tree hl max_events = Inr (cnt, hl1)"
  shows "analyse_events tree hl1 max_events = Inr (cnt, hl1) \<and>
         analyse_events tree (reset_all hl) max_events = Inr (cnt, hl1)"
  using assms analyse_events_again[OF assms]
  by (simp add: analyse_events_def reset_all_reset_all)

theorem second_pass_same_result_witness:
  "\<exists>hl1. analyse_events [ev_met250_dijet, ev_met100_dijet, ev_met250] get_histograms 3 = Inr (2, hl1) \<and>
     analyse_events [ev_met250_dijet, ev_met100_dijet, ev_met250] hl1 3 = Inr (2, hl1)"
proof -
  from analyse_three_events obtain hl1 where
    r: "analyse_events [ev_met250_dijet, ev_met100_dijet, ev_met250] get_histograms 3 = Inr (2, hl1)"
    by blast
  from second_pass_same_result[OF r] r show ?thesis
    by blast
qed

subsection \<open>Events that pass with fewer than two jets\<close>

text \<open>
  \<^bold>\<open>C8.\<close> An event with effective missing energy at least \<^verbatim>\<open>met_thresh\<close> and fewer
  than two jets adds one to the bucket \<^verbatim>\<open>total\<close> and one to the bucket
  \<^verbatim>\<open>200GeVMET\<close> of the cutflow histogram (two different bins, no other bin of it
  changes), adds one entry to the histogram \<^verbatim>\<open>met_et\<close> in the bin of the effective
  missing energy, and one entry to \<^verbatim>\<open>jet_n\<close>. The jet-kinematic histograms
  \<^verbatim>\<open>jet0_pt\<close>, \<^verbatim>\<open>jet1_pt\<close>, \<^verbatim>\<open>jet0_eta\<close>, \<^verbatim>\<open>jet1_eta\<close> and every other
  histogram of the dictionary stay as they were.
\<close>

theorem passed_with_few_jets:
  assumes "met_et_GeV ev = Inr met" and "real_of_int met_thresh \<le> met" and "jet_n ev < 2"
    and "process_event ev hl = Inr (passed, hl')"
  shows "\<exists>hc hm hj hc' bt bm.
           hl ''cutflow'' = Some hc \<and> hl ''met_et'' = Some hm \<and> hl ''jet_n'' = Some hj \<and>
           hl' ''cutflow'' = Some hc' \<and> hc' = cutflow_step True hc \<and>
           FindObject (labels hc') ''total'' = Some bt \<and>
           FindObject (labels hc') met_thresh_label = Some bm \<and> bt \<noteq> bm \<and>
           contents hc' = (contents hc)(bt := contents hc bt + 1, bm := contents hc bm + 1) \<and>
           entries hc' = entries hc + 2 \<and>
           hl' ''met_et'' = Some (Fill hm met) \<and>
           contents (Fill hm met) = (contents hm)(FindBin hm met := contents hm (FindBin hm met) + 1) \<and>
           entries (Fill hm met) = entries hm + 1 \<and>
           hl' ''jet_n'' = Some (Fill hj (real (jet_n ev))) \<and>
           hl' ''jet0_pt'' = hl ''jet0_pt'' \<and> hl' ''jet1_pt'' = hl ''jet1_pt'' \<and>
           hl' ''jet0_eta'' = hl ''jet0_eta'' \<and> hl' ''jet1_eta'' = hl ''jet1_eta'' \<and>
           (\<forall>k. k \<notin> {''cutflow'', ''met_et'', ''jet_n''} \<longrightarrow> hl' k = hl k)"
proof -
  from assms(2) have high: "\<not> met < real_of_int met_thresh"
    by simp
  from assms(4)[unfolded process_event_high_fewjets[OF assms(1) high assms(3)]]
  obtain hc hm hj where
    h: "hl ''cutflow'' = Some hc" "hl ''met_et'' = Some hm" "hl ''jet_n'' = Some hj"
    and hl': "hl' = hl(''cutflow'' \<mapsto> cutflow_step True hc, ''met_et'' \<mapsto> Fill hm met,
                       ''jet_n'' \<mapsto> Fill hj (real (jet_n ev)))"
    by (auto simp: cutflow_step_def)
  from cutflow_step_passed[of hc] obtain bt bm where
    b: "FindObject (labels (cutflow_step True hc)) ''total'' = Some bt"
      "FindObject (labels (cutflow_step True hc)) met_thresh_label = Some bm" "bt \<noteq> bm"
      "contents (cutflow_step True hc) =
         (contents hc)(bt := contents hc bt + 1, bm := contents hc bm + 1)"
      "entries (cutflow_step True hc) = entries hc + 2"
    by blast
  have frame: "\<forall>k. k \<notin> {''cutflow'', ''met_et'', ''jet_n''} \<longrightarrow> hl' k = hl k"
    by (simp add: hl')
  have jets: "hl' ''jet0_pt'' = hl ''jet0_pt''" "hl' ''jet1_pt'' = hl ''jet1_pt''"
    "hl' ''jet0_eta'' = hl ''jet0_eta''" "hl' ''jet1_eta'' = hl ''jet1_eta''"
    by (simp_all add: hl')
  have upd: "hl' ''cutflow'' = Some (cutflow_step True hc)" "hl' ''met_et'' = Some (Fill hm met)"
    "hl' ''jet_n'' = Some (Fill hj (real (jet_n ev)))"
    by (simp_all add: hl')
  have fill: "contents (Fill hm met) = (contents hm)(FindBin hm met := contents hm (FindBin hm met) + 1)"
    "entries (Fill hm met) = entries hm + 1"
    by (simp_all add: Fill_def Let_def)
  show ?thesis
    apply (rule exI[of _ hc], rule exI[of _ hm], rule exI[of _ hj])
    apply (rule exI[of _ "cutflow_step True hc"], rule exI[of _ bt], rule exI[of _ bm])
    apply (intro conjI)
    using h upd b fill jets frame by simp_all
qed

theorem passed_with_few_jets_witness:
  "met_et_GeV ev_met250 = Inr 250 \<and> real_of_int met_thresh \<le> (250 :: real) \<and>
   jet_n ev_met250 < 2 \<and>
   (\<exists>hl' hc' hm'. process_event ev_met250 get_histograms = Inr (True, hl') \<and>
      hl' ''cutflow'' = Some hc' \<and> labels hc' = [''total'', ''200GeVMET''] \<and>
      contents hc' 1 = 1 \<and> contents hc' 2 = 1 \<and> contents hc' 3 = 0 \<and> entries hc' = 2 \<and>
      hl' ''met_et'' = Some hm' \<and> contents hm' 51 = 1 \<and> contents hm' 50 = 0 \<and>
      hl' ''jet0_pt'' = get_histograms ''jet0_pt'' \<and>
      hl' ''jet1_pt'' = get_histograms ''jet1_pt'' \<and>
      hl' ''jet0_eta'' = get_histograms ''jet0_eta'' \<and>
      hl' ''jet1_eta'' = get_histograms ''jet1_eta'' \<and>
      hl' ''jet_dphi'' = get_histograms ''jet_dphi'')"
proof -
  have le: "real_of_int met_thresh \<le> (250 :: real)"
    by (simp add: met_thresh_def)
  have few: "jet_n ev_met250 < 2"
    by (simp add: ev_met250_def)
  obtain hl' where pe: "process_event ev_met250 get_histograms = Inr (True, hl')"
    using process_event_total[OF met_ev_met250 wf_examples(1) has_histograms_get_histograms] le
    by auto
  from passed_with_few_jets[OF met_ev_met250 le few pe] obtain hc hm hc' where
    t: "get_histograms ''cutflow'' = Some hc" "get_histograms ''met_et'' = Some hm"
      "hl' ''cutflow'' = Some hc'" "hc' = cutflow_step True hc"
      "hl' ''met_et'' = Some (Fill hm 250)"
      "hl' ''jet0_pt'' = get_histograms ''jet0_pt''" "hl' ''jet1_pt'' = get_histograms ''jet1_pt''"
      "hl' ''jet0_eta'' = get_histograms ''jet0_eta''" "hl' ''jet1_eta'' = get_histograms ''jet1_eta''"
      "\<forall>k. k \<notin> {''cutflow'', ''met_et'', ''jet_n''} \<longrightarrow> hl' k = get_histograms k"
    by (elim exE conjE) (rule that; assumption)
  from t(1) have hc: "hc = TH1F_new 10 0 10"
    by (simp add: get_histograms_def)
  from t(2) have hm: "hm = TH1F_new 90 0 450"
    by (simp add: get_histograms_def pt_bins_eq h_pt_min_def h_pt_max_def)
  have c: "labels hc' = [''total'', ''200GeVMET'']" "contents hc' 1 = 1" "contents hc' 2 = 1"
    "contents hc' 3 = 0" "entries hc' = 2"
    by (simp_all add: t(4) hc cutflow_step_def Fill_label_def FindBin_label_def TH1F_new_def
        met_thresh_label_def)
  have m: "contents (Fill hm 250) 51 = 1" "contents (Fill hm 250) 50 = 0"
    by (simp_all add: hm Fill_def FindBin_def TH1F_new_def Let_def)
  from t(10) have d: "hl' ''jet_dphi'' = get_histograms ''jet_dphi''"
    by simp
  show ?thesis
    apply (intro conjI)
       apply (rule met_ev_met250, rule le, rule few)
    apply (rule exI[of _ hl'], rule exI[of _ hc'], rule exI[of _ "Fill hm 250"])
    apply (intro conjI)
    using met_ev_met250 le few pe t(3,5,6,7,8,9) c m d by simp_all
qed

subsection \<open>Histograms that are created and never filled\<close>

text \<open>
  \<^bold>\<open>C9.\<close> \<^verbatim>\<open>get_histograms\<close> creates the histograms \<^verbatim>\<open>jet_dphi\<close>,
  \<^verbatim>\<open>jet_deta\<close> and \<^verbatim>\<open>dijet_m\<close>, and \<^verbatim>\<open>analyse_events\<close> never fills them: after
  any pass that returns, over any tree, each of the three is what the reset at the
  start of the pass made of it, with all bin contents 0 and no entry; on the dictionary
  of \<^verbatim>\<open>get_histograms\<close> it is the histogram as created.
\<close>

theorem unfilled_histograms_stay_empty:
  assumes "analyse_events tree hl max_events = Inr (cnt, hl')"
    and "k \<in> {''jet_dphi'', ''jet_deta'', ''dijet_m''}"
  shows "get_histograms k \<noteq> None \<and>
         hl' k = map_option Reset (hl k) \<and>
         (\<forall>h. hl' k = Some h \<longrightarrow> contents h = (\<lambda>b. 0) \<and> entries h = 0) \<and>
         (hl = get_histograms \<longrightarrow> hl' k = get_histograms k)"
proof -
  from assms(2) have nk:
    "k \<notin> {''cutflow'', ''met_et'', ''jet_n'', ''jet0_pt'', ''jet1_pt'', ''jet0_eta'', ''jet1_eta''}"
    by auto
  from assms(1) have "event_loop tree max_events 0 0 (reset_all hl) = Inr (cnt, hl')"
    by (simp add: analyse_events_def)
  from event_loop_frame[OF this nk] have eq: "hl' k = map_option Reset (hl k)"
    by (simp add: reset_all_def)
  have created: "get_histograms k \<noteq> None"
    using assms(2) by (auto simp: get_histograms_def)
  have empty: "\<forall>h. hl' k = Some h \<longrightarrow> contents h = (\<lambda>b. 0) \<and> entries h = 0"
    unfolding eq by (auto simp: Reset_def)
  have "hl' k = get_histograms k" if "hl = get_histograms"
    using assms(2) unfolding eq that by (auto simp: get_histograms_def Reset_TH1F_new)
  with created eq empty show ?thesis
    by blast
qed

theorem unfilled_histograms_stay_empty_witness:
  "\<exists>hl'. analyse_events [ev_met250_dijet, ev_met100_dijet, ev_met250] get_histograms 3 = Inr (2, hl') \<and>
     hl' ''jet_dphi'' = Some (TH1F_new 80 (- 4) 4) \<and>
     hl' ''jet_deta'' = Some (TH1F_new 80 0 8) \<and>
     hl' ''dijet_m'' = Some (TH1F_new 180 0 900)"
proof -
  from analyse_three_events obtain hl' where
    r: "analyse_events [ev_met250_dijet, ev_met100_dijet, ev_met250] get_histograms 3 = Inr (2, hl')"
    by blast
  have "hl' ''jet_dphi'' = get_histograms ''jet_dphi''"
    using unfilled_histograms_stay_empty[OF r, of "''jet_dphi''"] by blast
  moreover have "hl' ''jet_deta'' = get_histograms ''jet_deta''"
    using unfilled_histograms_stay_empty[OF r, of "''jet_deta''"] by blast
  moreover have "hl' ''dijet_m'' = get_histograms ''dijet_m''"
    using unfilled_histograms_stay_empty[OF r, of "''dijet_m''"] by blast
  ultimately have "hl' ''jet_dphi'' = Some (TH1F_new 80 (- 4) 4) \<and>
     hl' ''jet_deta'' = Some (TH1F_new 80 0 8) \<and>
     hl' ''dijet_m'' = Some (TH1F_new 180 0 900)"
    by (simp add: get_histograms_def pt_bins_eq h_pt_min_def h_pt_max_def)
  with r show ?thesis
    by blast
qed

subsection \<open>The threshold\<close>

text \<open>
  \<^bold>\<open>C10.\<close> The threshold of \<^verbatim>\<open>analyse_events\<close> is 200 GeV on every call: it is
  a constant of the function, and neither the dictionary nor \<^verbatim>\<open>max_events\<close> nor the
  tree changes it. An event whose processing returns is counted exactly when its
  effective missing energy is at least 200 GeV; a well-formed event with at least
  200 GeV is processed to the end on any dictionary that has the seven filled
  histograms, whatever its number of jets, and adds one to the passed count. The count
  a pass returns is the number of such events among the events it processes.
\<close>

theorem threshold_is_200:
  assumes "met_et_GeV ev = Inr met"
  shows "met_thresh = 200 \<and>
         (passes_met ev \<longleftrightarrow> 200 \<le> met) \<and>
         (process_event ev hl = Inr (passed, hl') \<longrightarrow> (passed \<longleftrightarrow> 200 \<le> met)) \<and>
         (200 \<le> met \<and> wf_event ev \<and> has_histograms hl \<and> evt_cnt < max_events \<longrightarrow>
            (\<exists>hl1. process_event ev hl = Inr (True, hl1) \<and>
               event_loop (ev # tree) max_events evt_cnt passed_cnt hl =
               event_loop tree max_events (evt_cnt + 1) (passed_cnt + 1) hl1)) \<and>
         (analyse_events events hl limit = Inr (cnt, hl2) \<longrightarrow>
            cnt = int (length (filter passes_met (take (nat limit) events))))"
proof (intro conjI impI)
  show "met_thresh = 200"
    by (simp add: met_thresh_def)
next
  show "passes_met ev \<longleftrightarrow> 200 \<le> met"
    by (simp add: passes_met_def assms met_thresh_def)
next
  assume "process_event ev hl = Inr (passed, hl')"
  from process_event_passed[OF assms this] show "passed \<longleftrightarrow> 200 \<le> met"
    by (simp add: met_thresh_def not_less)
next
  assume a: "200 \<le> met \<and> wf_event ev \<and> has_histograms hl \<and> evt_cnt < max_events"
  from process_event_total[OF assms, of hl] a obtain hl1 where
    pe: "process_event ev hl = Inr (True, hl1)"
    by (auto simp: met_thresh_def)
  have "event_loop (ev # tree) max_events evt_cnt passed_cnt hl =
               event_loop tree max_events (evt_cnt + 1) (passed_cnt + 1) hl1"
    using a pe by simp
  with pe show "\<exists>hl1. process_event ev hl = Inr (True, hl1) \<and>
               event_loop (ev # tree) max_events evt_cnt passed_cnt hl =
               event_loop tree max_events (evt_cnt + 1) (passed_cnt + 1) hl1"
    by blast
next
  assume "analyse_events events hl limit = Inr (cnt, hl2)"
  then show "cnt = int (length (filter passes_met (take (nat limit) events)))"
    using event_loop_count[of events limit 0 0 "reset_all hl" cnt hl2]
    by (simp add: analyse_events_def)
qed

theorem threshold_is_200_witness:
  "met_et_GeV ev_met250_dijet = Inr 250 \<and> jet_n ev_met250_dijet = 2 \<and>
   (\<exists>hl'. process_event ev_met250_dijet get_histograms = Inr (True, hl') \<and>
      event_loop [ev_met250_dijet] 1 0 0 get_histograms = Inr (1, hl')) \<and>
   (\<exists>hl'. analyse_events [ev_met250_dijet, ev_met100_dijet, ev_met250] get_histograms 3
      = Inr (2, hl'))"
proof -
  let ?tree = "[ev_met250_dijet, ev_met100_dijet, ev_met250]"
  obtain cnt hl3 where r: "analyse_events ?tree get_histograms 3 = Inr (cnt, hl3)"
    using analyse_events_total[of ?tree get_histograms 3] wf_examples has_histograms_get_histograms
    by auto
  note a = threshold_is_200[OF met_ev_met250_dijet, where hl = get_histograms
      and evt_cnt = 0 and max_events = 1 and tree = "[]" and passed_cnt = 0
      and events = ?tree and limit = 3 and cnt = cnt and ?hl2.0 = hl3]
  have pre: "(200 :: real) \<le> 250 \<and> wf_event ev_met250_dijet \<and> has_histograms get_histograms \<and>
      (0 :: int) < 1"
    using wf_examples(3) has_histograms_get_histograms by simp
  from a pre obtain hl1 where
    h1: "process_event ev_met250_dijet get_histograms = Inr (True, hl1)"
      "event_loop [ev_met250_dijet] 1 0 0 get_histograms = event_loop [] 1 (0 + 1) (0 + 1) hl1"
    by blast
  from h1(2) have l1: "event_loop [ev_met250_dijet] 1 0 0 get_histograms = Inr (1, hl1)"
    by (simp only: event_loop.simps) simp
  have p: "passes_met ev_met250_dijet" "\<not> passes_met ev_met100_dijet" "passes_met ev_met250"
    by (simp_all add: passes_met_def met_ev_met250_dijet met_ev_met100_dijet met_ev_met250
        met_thresh_def)
  from a r have "cnt = int (length (filter passes_met (take (nat 3) ?tree)))"
    by blast
  then have "cnt = 2"
    using p by (simp add: numeral_3_eq_3)
  with r have r2: "analyse_events ?tree get_histograms 3 = Inr (2, hl3)"
    by simp
  have j: "jet_n ev_met250_dijet = 2"
    by (simp add: ev_met250_dijet_def)
  from met_ev_met250_dijet j h1(1) l1 r2 show ?thesis
    by blast
qed

end
